theory Spec2Isabelle
  imports Main
begin

section \<open>The downtime slasher wrapper (DowntimeSlasherSlots.ts)\<close>

text \<open>
  A shallow embedding of \<^verbatim>\<open>DowntimeSlasherSlotsWrapper\<close>
  (\<^verbatim>\<open>packages/contractkit/src/wrappers/DowntimeSlasherSlots.ts\<close>).

  Block numbers, slot sizes, signer indices and window lengths are TypeScript
  \<^verbatim>\<open>number\<close>s holding integers; they are modelled as \<open>int\<close>.
  A thrown \<^verbatim>\<open>Error\<close> is a value of the type \<open>error\<close>, named after the
  taxonomy of the specification. The asynchronous calls are sequential (each is awaited),
  so they are modelled as plain function application. Read-only chain queries are total
  functions of a snapshot of the chain (the record \<open>Kit\<close>); the only state-changing call
  the wrapper sends by itself, \<^verbatim>\<open>generateProofOfSlotValidation(start, end).send()\<close>,
  threads the contract storage explicitly and may revert.
\<close>

subsection \<open>Data\<close>

type_synonym Address = string

datatype error = InvalidWindowLength | InvalidSlotSize | SignerNotElected | ChainRejected

text \<open>\<^verbatim>\<open>interface DowntimeWindow { start; end; length }\<close>\<close>

record DowntimeWindow =
  w_start :: int
  w_end :: int
  w_length :: int

text \<open>The value returned by \<^verbatim>\<open>generateProofs\<close>: \<^verbatim>\<open>{ startSlots, endSlots }\<close>.\<close>

record SlotArrays =
  startSlots :: "int list"
  endSlots :: "int list"

text \<open>The fields of \<^verbatim>\<open>Validator\<close> that the wrapper reads.\<close>

record Validator =
  validator_address :: Address
  validator_signer :: Address

record SlashingParameters =
  lessers :: "Address list"
  greaters :: "Address list"
  indices :: "int list"

text \<open>
  The methods of the deployed contract that \<^verbatim>\<open>generateProofs\<close> can reach through
  \<^verbatim>\<open>this.contract.methods\<close>, over a contract storage \<open>'c\<close>. Sending
  \<^verbatim>\<open>generateProofOfSlotValidation\<close> yields the new storage, or \<open>None\<close> when the
  transaction reverts (the awaited promise rejects).
\<close>

record 'c SlasherMethods =
  generateProofOfSlotValidation :: "int \<Rightarrow> int \<Rightarrow> 'c \<Rightarrow> 'c option"
  slotAlreadyCalculated :: "int \<Rightarrow> int \<Rightarrow> 'c \<Rightarrow> bool"

text \<open>
  The read-only collaborators reached through \<^verbatim>\<open>this.kit\<close> and the proxied
  contract getters: the chain head, the configured downtime and penalty, and the Accounts,
  Validators, Election and LockedGold wrappers. \<open>'l\<close> is the sorted list that
  \<^verbatim>\<open>computeInitialParametersForSlashing\<close> hands to
  \<^verbatim>\<open>computeParametersForSlashing\<close>.
\<close>

record 'l Kit =
  getBlockNumber :: int
  slashableDowntime :: int
  slashingPenalty :: int
  isAccount :: "Address \<Rightarrow> bool"
  getValidator :: "Address \<Rightarrow> int \<Rightarrow> Validator"
  getValidatorFromSigner :: "Address \<Rightarrow> Validator"
  getValidatorMembershipHistoryIndex :: "Validator \<Rightarrow> int \<Rightarrow> Address \<times> int"
  getValidatorSigners :: "int \<Rightarrow> Address list"
  validatorSignerAddressFromSet :: "int \<Rightarrow> int \<Rightarrow> Address"
  getEpochNumberOfBlock :: "int \<Rightarrow> int"
  computeInitialParametersForSlashing :: "Address \<Rightarrow> int \<Rightarrow> SlashingParameters \<times> 'l"
  computeParametersForSlashing :: "Address \<Rightarrow> int \<Rightarrow> 'l \<Rightarrow> SlashingParameters"

text \<open>The twelve arguments of \<^verbatim>\<open>this.contract.methods.slash(...)\<close>.\<close>

record SlashTx =
  tx_windowStart :: int
  tx_startSlots :: "int list"
  tx_endSlots :: "int list"
  tx_startSignerIndex :: int
  tx_endSignerIndex :: int
  tx_historyIndex :: int
  tx_validatorParameters :: SlashingParameters
  tx_groupParameters :: SlashingParameters

subsection \<open>Window resolution\<close>

text \<open>
  \<^verbatim>\<open>getDowntimeWindow(length, startBlock?, endBlock?)\<close>: an absent optional argument
  (\<^verbatim>\<open>undefined\<close>) is \<open>None\<close>. The chain head is read only in the last case.
\<close>

definition getDowntimeWindow ::
  "'l Kit \<Rightarrow> int \<Rightarrow> int option \<Rightarrow> int option \<Rightarrow> error + DowntimeWindow" where
  "getDowntimeWindow kit len startBlock endBlock =
     (if startBlock \<noteq> None \<and> endBlock \<noteq> None then
        (if the endBlock - the startBlock + 1 \<noteq> len then Inl InvalidWindowLength
         else Inr \<lparr>w_start = the startBlock, w_end = the endBlock, w_length = len\<rparr>)
      else if endBlock \<noteq> None then
        Inr \<lparr>w_start = the endBlock - len + 1, w_end = the endBlock, w_length = len\<rparr>
      else if startBlock \<noteq> None then
        Inr \<lparr>w_start = the startBlock, w_end = the startBlock + len - 1, w_length = len\<rparr>
      else
        (let latest = getBlockNumber kit - 2
         in Inr \<lparr>w_start = latest - len + 1, w_end = latest, w_length = len\<rparr>))"

definition getSlashableDowntimeWindow ::
  "'l Kit \<Rightarrow> int option \<Rightarrow> int option \<Rightarrow> error + DowntimeWindow" where
  "getSlashableDowntimeWindow kit startBlock endBlock =
     (let len = slashableDowntime kit in getDowntimeWindow kit len startBlock endBlock)"

subsection \<open>Slot partition and proof generation\<close>

text \<open>
  The \<^verbatim>\<open>for\<close> loop of \<^verbatim>\<open>generateProofs\<close>, with the loop variable \<open>i\<close>, the two
  arrays built so far and the contract storage. The loop has no bound of its own when
  \<open>slotSize \<le> 0\<close>, so it is a partial function: \<open>None\<close> is a run that never returns.
\<close>

partial_function (option) generateProofs_loop ::
  "'c SlasherMethods \<Rightarrow> DowntimeWindow \<Rightarrow> int \<Rightarrow> int \<Rightarrow> int list \<Rightarrow> int list \<Rightarrow> 'c
     \<Rightarrow> (error + SlotArrays \<times> 'c) option" where
  "generateProofs_loop methods slashableWindow slotSize i starts ends c =
     (if i < w_end slashableWindow then
        (let start = i;
             end = (if i + slotSize - 1 > w_end slashableWindow then w_end slashableWindow
                    else i + slotSize - 1)
         in case generateProofOfSlotValidation methods start end c of
              None \<Rightarrow> Some (Inl ChainRejected)
            | Some c' \<Rightarrow> generateProofs_loop methods slashableWindow slotSize (i + slotSize)
                          (starts @ [start]) (ends @ [end]) c')
      else Some (Inr (\<lparr>startSlots = starts, endSlots = ends\<rparr>, c)))"

declare generateProofs_loop.simps [code]

definition generateProofs ::
  "'c SlasherMethods \<Rightarrow> DowntimeWindow \<Rightarrow> int \<Rightarrow> 'c \<Rightarrow> (error + SlotArrays \<times> 'c) option" where
  "generateProofs methods slashableWindow slotSize c =
     (if slotSize \<le> 1 then Some (Inl InvalidSlotSize)
      else generateProofs_loop methods slashableWindow slotSize (w_start slashableWindow) [] [] c)"

subsection \<open>Signer indices\<close>

text \<open>
  Modelled from the spec: \<^verbatim>\<open>findAddressIndex\<close> of \<^verbatim>\<open>@celo/utils/lib/address\<close>,
  which is not among the sources. It looks up the index of the signer in the list of
  elected signers; the wrapper tests its result with \<^verbatim>\<open>index < 0\<close>, so an absent
  signer is the index \<open>-1\<close>. Addresses are compared as they are written.
\<close>

fun findAddressIndex :: "Address \<Rightarrow> Address list \<Rightarrow> int" where
  "findAddressIndex a [] = - 1"
| "findAddressIndex a (x # xs) =
     (if x = a then 0
      else (let r = findAddressIndex a xs in if r < 0 then - 1 else r + 1))"

definition getValidatorSignerIndex :: "'l Kit \<Rightarrow> Address \<Rightarrow> int \<Rightarrow> error + int" where
  "getValidatorSignerIndex kit validatorOrSignerAddress blockNumber =
     (let signer = (if isAccount kit validatorOrSignerAddress
                    then validator_signer (getValidator kit validatorOrSignerAddress blockNumber)
                    else validatorOrSignerAddress);
          index = findAddressIndex signer (getValidatorSigners kit blockNumber)
      in if index < 0 then Inl SignerNotElected else Inr index)"

subsection \<open>Assembling the slash transaction\<close>

definition slash ::
  "'l Kit \<Rightarrow> Validator \<Rightarrow> DowntimeWindow \<Rightarrow> int list \<Rightarrow> int list \<Rightarrow> int \<Rightarrow> int \<Rightarrow> SlashTx" where
  "slash kit validator slashableWindow starts ends startSignerIndex endSignerIndex =
     (let penalty = slashingPenalty kit;
          membership = getValidatorMembershipHistoryIndex kit validator (w_start slashableWindow);
          slashValidator = computeInitialParametersForSlashing kit (validator_address validator) penalty;
          slashGroup = computeParametersForSlashing kit (fst membership) penalty (snd slashValidator)
      in \<lparr>tx_windowStart = w_start slashableWindow,
          tx_startSlots = starts,
          tx_endSlots = ends,
          tx_startSignerIndex = startSignerIndex,
          tx_endSignerIndex = endSignerIndex,
          tx_historyIndex = snd membership,
          tx_validatorParameters = fst slashValidator,
          tx_groupParameters = slashGroup\<rparr>)"

definition slashStartSignerIndex ::
  "'l Kit \<Rightarrow> int \<Rightarrow> int \<Rightarrow> int list \<Rightarrow> int list \<Rightarrow> error + SlashTx" where
  "slashStartSignerIndex kit startBlock startSignerIndex starts ends =
     (let signer = validatorSignerAddressFromSet kit startSignerIndex startBlock;
          startEpoch = getEpochNumberOfBlock kit startBlock
      in case getSlashableDowntimeWindow kit (Some startBlock) None of
           Inl e \<Rightarrow> Inl e
         | Inr window \<Rightarrow>
             (let endEpoch = getEpochNumberOfBlock kit (w_end window);
                  endSignerIndex =
                    (if startEpoch = endEpoch then startSignerIndex
                     else findAddressIndex signer (getValidatorSigners kit (w_end window)));
                  validator = getValidatorFromSigner kit signer
              in Inr (slash kit validator window starts ends startSignerIndex endSignerIndex)))"

definition slashEndSignerIndex ::
  "'l Kit \<Rightarrow> int \<Rightarrow> int \<Rightarrow> int list \<Rightarrow> int list \<Rightarrow> error + SlashTx" where
  "slashEndSignerIndex kit endBlock endSignerIndex starts ends =
     (let signer = validatorSignerAddressFromSet kit endSignerIndex endBlock;
          endEpoch = getEpochNumberOfBlock kit endBlock
      in case getSlashableDowntimeWindow kit None (Some endBlock) of
           Inl e \<Rightarrow> Inl e
         | Inr slashableWindow \<Rightarrow>
             (let startEpoch = getEpochNumberOfBlock kit (w_start slashableWindow);
                  startSignerIndex =
                    (if startEpoch = endEpoch then endSignerIndex
                     else findAddressIndex signer
                            (getValidatorSigners kit (w_start slashableWindow)));
                  validator = getValidatorFromSigner kit signer
              in Inr (slash kit validator slashableWindow starts ends
                        startSignerIndex endSignerIndex)))"

definition slashGeneratingProofs ::
  "'l Kit \<Rightarrow> 'c SlasherMethods \<Rightarrow> Validator \<Rightarrow> DowntimeWindow \<Rightarrow> int \<Rightarrow> int \<Rightarrow> int \<Rightarrow> 'c
     \<Rightarrow> (error + SlashTx \<times> 'c) option" where
  "slashGeneratingProofs kit methods validator slashableWindow slotSize
       startSignerIndex endSignerIndex c =
     (case generateProofs methods slashableWindow slotSize c of
        None \<Rightarrow> None
      | Some (Inl e) \<Rightarrow> Some (Inl e)
      | Some (Inr (slotArrays, c')) \<Rightarrow>
          Some (Inr (slash kit validator slashableWindow (startSlots slotArrays)
                       (endSlots slotArrays) startSignerIndex endSignerIndex, c')))"

subsection \<open>The slots as a list\<close>

text \<open>
  Two functions used to state and prove properties of the loop; they are not part of the
  wrapper. \<open>slotBounds\<close> lists the \<open>(start, end)\<close> pairs that the loop of
  \<^verbatim>\<open>generateProofs\<close> visits from \<open>i\<close> on, and \<open>sendEach\<close> is the effect on the
  contract storage of sending one transaction per pair, in order, stopping at the first
  revert.
\<close>

function slotBounds :: "int \<Rightarrow> int \<Rightarrow> int \<Rightarrow> (int \<times> int) list" where
  "slotBounds slotSize windowEnd i =
     (if 1 < slotSize \<and> i < windowEnd then
        (i, if i + slotSize - 1 > windowEnd then windowEnd else i + slotSize - 1)
          # slotBounds slotSize windowEnd (i + slotSize)
      else [])"
  by pat_completeness auto
termination
  by (relation "measure (\<lambda>(slotSize, windowEnd, i). nat (windowEnd - i))") auto

declare slotBounds.simps [simp del]

fun sendEach :: "(int \<Rightarrow> int \<Rightarrow> 'c \<Rightarrow> 'c option) \<Rightarrow> (int \<times> int) list \<Rightarrow> 'c \<Rightarrow> 'c option" where
  "sendEach send [] c = Some c"
| "sendEach send (slot # slots) c =
     (case send (fst slot) (snd slot) c of None \<Rightarrow> None | Some c' \<Rightarrow> sendEach send slots c')"

subsection \<open>A recording contract and an example chain\<close>

text \<open>
  Instances of the collaborators for concrete evaluation. The storage of
  \<open>recordingMethods\<close> is the list of slots for which
  \<^verbatim>\<open>generateProofOfSlotValidation\<close> was sent, in order, and a slot counts as already
  calculated once it is in that list; every transaction of \<open>revertingMethods\<close> reverts.
  In \<open>exampleKit\<close> an epoch has 100 blocks (blocks 1 to 100 are epoch 1), the elected
  set is \<open>[signer1]\<close> in epoch 1 and \<open>[signer2]\<close> afterwards, and the slashable downtime
  is 12 blocks.
\<close>

definition recordingMethods :: "(int \<times> int) list SlasherMethods" where
  "recordingMethods =
     \<lparr>generateProofOfSlotValidation = (\<lambda>s e c. Some (c @ [(s, e)])),
      slotAlreadyCalculated = (\<lambda>s e c. (s, e) \<in> set c)\<rparr>"

definition revertingMethods :: "unit SlasherMethods" where
  "revertingMethods =
     \<lparr>generateProofOfSlotValidation = (\<lambda>s e c. None),
      slotAlreadyCalculated = (\<lambda>s e c. False)\<rparr>"

definition exampleSigners :: "int \<Rightarrow> Address list" where
  "exampleSigners b = (if (b + 99) div 100 = 1 then [''signer1''] else [''signer2''])"

definition exampleKit :: "unit Kit" where
  "exampleKit =
     \<lparr>getBlockNumber = 130,
      slashableDowntime = 12,
      slashingPenalty = 10000,
      isAccount = (\<lambda>a. a = ''account1'' \<or> a = ''account2''),
      getValidator = (\<lambda>a b. \<lparr>validator_address = a,
                                 validator_signer = (if a = ''account1'' then ''signer1'' else ''signer2'')\<rparr>),
      getValidatorFromSigner = (\<lambda>s. \<lparr>validator_address = (if s = ''signer1'' then ''account1'' else ''account2''),
                                         validator_signer = s\<rparr>),
      getValidatorMembershipHistoryIndex = (\<lambda>v b. (''group1'', 0)),
      getValidatorSigners = exampleSigners,
      validatorSignerAddressFromSet =
        (\<lambda>i b. if 0 \<le> i \<and> i < int (length (exampleSigners b)) then exampleSigners b ! nat i else []),
      getEpochNumberOfBlock = (\<lambda>b. (b + 99) div 100),
      computeInitialParametersForSlashing =
        (\<lambda>a p. (\<lparr>lessers = [], greaters = [], indices = []\<rparr>, ())),
      computeParametersForSlashing = (\<lambda>a p l. \<lparr>lessers = [], greaters = [], indices = []\<rparr>)\<rparr>"

section \<open>Properties\<close>

subsection \<open>The loop computes the slot list\<close>

lemma loop_refines:
  "1 < slotSize \<Longrightarrow>
   generateProofs_loop methods w slotSize i starts ends c =
     Some (case sendEach (generateProofOfSlotValidation methods) (slotBounds slotSize (w_end w) i) c of
             None \<Rightarrow> Inl ChainRejected
           | Some c' \<Rightarrow> Inr (\<lparr>startSlots = starts @ map fst (slotBounds slotSize (w_end w) i),
                               endSlots = ends @ map snd (slotBounds slotSize (w_end w) i)\<rparr>, c'))"
proof (induction slotSize "w_end w" i arbitrary: starts ends c rule: slotBounds.induct)
  case (1 slotSize i)
  show ?case
  proof (cases "i < w_end w")
    case False
    then show ?thesis
      by (subst generateProofs_loop.simps) (simp add: slotBounds.simps [of slotSize "w_end w" i])
  next
    case True
    note less = this
    let ?e = "if i + slotSize - 1 > w_end w then w_end w else i + slotSize - 1"
    have unfold: "slotBounds slotSize (w_end w) i = (i, ?e) # slotBounds slotSize (w_end w) (i + slotSize)"
      using less "1.prems" by (subst slotBounds.simps) simp
    show ?thesis
    proof (cases "generateProofOfSlotValidation methods i ?e c")
      case None
      then show ?thesis
        using less by (subst generateProofs_loop.simps) (simp add: unfold Let_def)
    next
      case (Some c')
      have step: "generateProofs_loop methods w slotSize i starts ends c =
                  generateProofs_loop methods w slotSize (i + slotSize) (starts @ [i]) (ends @ [?e]) c'"
        using less Some by (subst generateProofs_loop.simps) (simp add: Let_def)
      have ih: "generateProofs_loop methods w slotSize (i + slotSize) (starts @ [i]) (ends @ [?e]) c' =
          Some (case sendEach (generateProofOfSlotValidation methods) (slotBounds slotSize (w_end w) (i + slotSize)) c' of
             None \<Rightarrow> Inl ChainRejected
           | Some c'' \<Rightarrow> Inr (\<lparr>startSlots = (starts @ [i]) @ map fst (slotBounds slotSize (w_end w) (i + slotSize)),
                               endSlots = (ends @ [?e]) @ map snd (slotBounds slotSize (w_end w) (i + slotSize))\<rparr>, c''))"
        using "1.hyps" [of "starts @ [i]" "ends @ [?e]" c'] less "1.prems" by simp
      show ?thesis
        unfolding step ih by (simp add: unfold Some split: option.splits)
    qed
  qed
qed


lemma slotBounds_Nil: "\<not> (1 < slotSize \<and> i < windowEnd) \<Longrightarrow> slotBounds slotSize windowEnd i = []"
  by (subst slotBounds.simps) simp

lemma slotBounds_Cons:
  "1 < slotSize \<Longrightarrow> i < windowEnd \<Longrightarrow>
   slotBounds slotSize windowEnd i =
     (i, if i + slotSize - 1 > windowEnd then windowEnd else i + slotSize - 1)
       # slotBounds slotSize windowEnd (i + slotSize)"
  by (subst slotBounds.simps) simp

lemma slotBounds_chained:
  "Suc j < length (slotBounds slotSize windowEnd i) \<Longrightarrow>
   fst (slotBounds slotSize windowEnd i ! Suc j) = snd (slotBounds slotSize windowEnd i ! j) + 1"
proof (induction slotSize windowEnd i arbitrary: j rule: slotBounds.induct)
  case (1 slotSize windowEnd i)
  have guard: "1 < slotSize \<and> i < windowEnd"
  proof (rule ccontr)
    assume "\<not> (1 < slotSize \<and> i < windowEnd)"
    then have "slotBounds slotSize windowEnd i = []" by (rule slotBounds_Nil)
    with "1.prems" show False by simp
  qed
  let ?rest = "slotBounds slotSize windowEnd (i + slotSize)"
  have unfold: "slotBounds slotSize windowEnd i =
      (i, if i + slotSize - 1 > windowEnd then windowEnd else i + slotSize - 1) # ?rest"
    using guard by (simp add: slotBounds_Cons)
  show ?case
  proof (cases j)
    case 0
    have "?rest \<noteq> []" using "1.prems" unfold 0 by auto
    then have next_guard: "i + slotSize < windowEnd"
      using slotBounds_Nil [of slotSize "i + slotSize" windowEnd] by auto
    then have "?rest = (i + slotSize, if i + slotSize + slotSize - 1 > windowEnd then windowEnd
                                       else i + slotSize + slotSize - 1)
                        # slotBounds slotSize windowEnd (i + slotSize + slotSize)"
      using guard by (simp add: slotBounds_Cons)
    then have "fst (?rest ! 0) = i + slotSize" by simp
    then show ?thesis using 0 unfold next_guard by simp
  next
    case (Suc j')
    then have "Suc j' < length ?rest" using "1.prems" unfold by simp
    then have "fst (?rest ! Suc j') = snd (?rest ! j') + 1"
      using "1.IH" guard by simp
    then show ?thesis using Suc unfold by simp
  qed
qed

lemma slotBounds_12_4:
  "slotBounds 4 (s + 11) s = [(s, s + 3), (s + 4, s + 7), (s + 8, s + 11)]"
  by (simp add: slotBounds_Cons slotBounds_Nil)

lemma slotBounds_first:
  "slotBounds slotSize windowEnd i \<noteq> [] \<Longrightarrow> fst (hd (slotBounds slotSize windowEnd i)) = i"
proof -
  assume nonempty: "slotBounds slotSize windowEnd i \<noteq> []"
  have "1 < slotSize \<and> i < windowEnd"
    using nonempty slotBounds_Nil [of slotSize i windowEnd] by blast
  then show ?thesis by (simp add: slotBounds_Cons)
qed

text \<open>
  The last slot ends at the end of the window or one block before it: the loop stops as
  soon as \<open>i\<close> reaches \<open>windowEnd\<close>, also when the block \<open>windowEnd\<close> is in no slot yet.
\<close>

lemma slotBounds_last:
  "slotBounds slotSize windowEnd i \<noteq> [] \<Longrightarrow>
   snd (last (slotBounds slotSize windowEnd i)) = windowEnd
   \<or> snd (last (slotBounds slotSize windowEnd i)) = windowEnd - 1"
proof (induction slotSize windowEnd i rule: slotBounds.induct)
  case (1 slotSize windowEnd i)
  have guard: "1 < slotSize \<and> i < windowEnd"
    using "1.prems" slotBounds_Nil [of slotSize i windowEnd] by blast
  let ?rest = "slotBounds slotSize windowEnd (i + slotSize)"
  have unfold: "slotBounds slotSize windowEnd i =
      (i, if i + slotSize - 1 > windowEnd then windowEnd else i + slotSize - 1) # ?rest"
    using guard by (simp add: slotBounds_Cons)
  show ?case
  proof (cases "?rest = []")
    case True
    have "\<not> i + slotSize < windowEnd"
    proof
      assume "i + slotSize < windowEnd"
      then have "?rest \<noteq> []" using guard by (simp add: slotBounds_Cons)
      with True show False by simp
    qed
    then show ?thesis using unfold True by auto
  next
    case False
    then have "snd (last ?rest) = windowEnd \<or> snd (last ?rest) = windowEnd - 1"
      using "1.IH" guard by simp
    then show ?thesis using unfold False by simp
  qed
qed

lemma generateProofs_refines:
  "1 < slotSize \<Longrightarrow>
   generateProofs methods w slotSize c =
     Some (case sendEach (generateProofOfSlotValidation methods)
                  (slotBounds slotSize (w_end w) (w_start w)) c of
             None \<Rightarrow> Inl ChainRejected
           | Some c' \<Rightarrow>
               Inr (\<lparr>startSlots = map fst (slotBounds slotSize (w_end w) (w_start w)),
                      endSlots = map snd (slotBounds slotSize (w_end w) (w_start w))\<rparr>, c'))"
  by (simp add: generateProofs_def loop_refines split: option.splits)



subsection \<open>Window resolution\<close>

text \<open>
  Claim C3. When both \<open>startBlock\<close> and \<open>endBlock\<close> are supplied, window resolution
  fails with \<open>InvalidWindowLength\<close> if and only if \<open>endBlock - startBlock + 1\<close> differs
  from \<open>length\<close>; when the check passes, the window returned is
  \<open>{start: startBlock, end: endBlock, length}\<close>.
\<close>

theorem getDowntimeWindow_both_bounds:
  "(getDowntimeWindow kit len (Some startBlock) (Some endBlock) = Inl InvalidWindowLength)
     = (endBlock - startBlock + 1 \<noteq> len)
   \<and> (endBlock - startBlock + 1 = len \<longrightarrow>
        getDowntimeWindow kit len (Some startBlock) (Some endBlock)
          = Inr \<lparr>w_start = startBlock, w_end = endBlock, w_length = len\<rparr>)"
  by (simp add: getDowntimeWindow_def)

theorem getDowntimeWindow_both_bounds_witness:
  "(16::int) - 5 + 1 = 12
   \<and> getDowntimeWindow exampleKit 12 (Some 5) (Some 16)
       = Inr \<lparr>w_start = 5, w_end = 16, w_length = 12\<rparr>
   \<and> getDowntimeWindow exampleKit 12 (Some 5) (Some 16) \<noteq> Inl InvalidWindowLength"
  using getDowntimeWindow_both_bounds [of exampleKit 12 5 16] by simp

text \<open>
  Claim C4. When exactly one bound is supplied: with only \<open>endBlock\<close>, the window has
  \<open>start = endBlock - length + 1\<close> and \<open>end = endBlock\<close>; with only \<open>startBlock\<close>, it
  has \<open>start = startBlock\<close> and \<open>end = startBlock + length - 1\<close>.
\<close>

theorem getDowntimeWindow_one_bound:
  "getDowntimeWindow kit len None (Some endBlock)
     = Inr \<lparr>w_start = endBlock - len + 1, w_end = endBlock, w_length = len\<rparr>
   \<and> getDowntimeWindow kit len (Some startBlock) None
     = Inr \<lparr>w_start = startBlock, w_end = startBlock + len - 1, w_length = len\<rparr>"
  by (simp add: getDowntimeWindow_def)

text \<open>
  Claim C5. When neither bound is supplied, window resolution takes the chain head minus
  two as the end of the window and derives \<open>start = end - length + 1\<close>.
\<close>

theorem getDowntimeWindow_no_bound:
  "getDowntimeWindow kit len None None
     = Inr \<lparr>w_start = (getBlockNumber kit - 2) - len + 1,
            w_end = getBlockNumber kit - 2,
            w_length = len\<rparr>"
  by (simp add: getDowntimeWindow_def)

text \<open>
  Claim C6. Every window returned by window resolution, in any of its four input cases,
  satisfies \<open>end - start + 1 = length\<close> (and its length is the one asked for).
\<close>

theorem getDowntimeWindow_invariant:
  assumes "getDowntimeWindow kit len startBlock endBlock = Inr w"
  shows "w_end w - w_start w + 1 = w_length w \<and> w_length w = len"
proof (cases startBlock)
  case None
  note start_absent = this
  show ?thesis
  proof (cases endBlock)
    case None
    with start_absent assms show ?thesis
      by (auto simp: getDowntimeWindow_def)
  next
    case (Some e)
    with start_absent assms show ?thesis
      by (auto simp: getDowntimeWindow_def)
  qed
next
  case (Some s)
  note start_given = this
  show ?thesis
  proof (cases endBlock)
    case None
    with start_given assms show ?thesis
      by (auto simp: getDowntimeWindow_def)
  next
    case (Some e)
    with start_given assms show ?thesis
      by (auto simp: getDowntimeWindow_def split: if_splits)
  qed
qed

theorem getDowntimeWindow_invariant_witness:
  "getDowntimeWindow exampleKit 12 None None = Inr \<lparr>w_start = 117, w_end = 128, w_length = 12\<rparr>
   \<and> w_end \<lparr>w_start = 117, w_end = 128, w_length = 12\<rparr>
         - w_start \<lparr>w_start = 117, w_end = 128, w_length = 12\<rparr> + 1
       = w_length \<lparr>w_start = 117, w_end = 128, w_length = 12\<rparr>"
proof -
  have resolved: "getDowntimeWindow exampleKit 12 None None
      = Inr \<lparr>w_start = 117, w_end = 128, w_length = 12\<rparr>"
    by (simp add: getDowntimeWindow_def exampleKit_def)
  from getDowntimeWindow_invariant [OF resolved] resolved show ?thesis
    by blast
qed

subsection \<open>Slot partition\<close>

text \<open>
  Claim C7. For every window, \<^verbatim>\<open>generateProofs\<close> fails with \<open>InvalidSlotSize\<close>
  whenever \<open>slotSize \<le> 1\<close>; when \<open>slotSize > 1\<close> it returns, and what it returns is
  not that error.
\<close>

theorem generateProofs_InvalidSlotSize:
  "(slotSize \<le> 1 \<longrightarrow> generateProofs methods w slotSize c = Some (Inl InvalidSlotSize))
   \<and> (1 < slotSize \<longrightarrow>
        (\<exists>res. generateProofs methods w slotSize c = Some res \<and> res \<noteq> Inl InvalidSlotSize))"
proof (intro conjI impI)
  assume "slotSize \<le> 1"
  then show "generateProofs methods w slotSize c = Some (Inl InvalidSlotSize)"
    by (simp add: generateProofs_def)
next
  assume "1 < slotSize"
  then show "\<exists>res. generateProofs methods w slotSize c = Some res \<and> res \<noteq> Inl InvalidSlotSize"
    by (simp add: generateProofs_refines split: option.splits)
qed

theorem generateProofs_InvalidSlotSize_witness:
  "(1::int) \<le> 1
   \<and> generateProofs recordingMethods \<lparr>w_start = 0, w_end = 11, w_length = 12\<rparr> 1 []
       = Some (Inl InvalidSlotSize)
   \<and> (1::int) < 4
   \<and> (\<exists>res. generateProofs recordingMethods \<lparr>w_start = 0, w_end = 11, w_length = 12\<rparr> 4 []
                = Some res \<and> res \<noteq> Inl InvalidSlotSize)"
  using generateProofs_InvalidSlotSize
          [of 1 recordingMethods "\<lparr>w_start = 0, w_end = 11, w_length = 12\<rparr>" "[]"]
        generateProofs_InvalidSlotSize
          [of 4 recordingMethods "\<lparr>w_start = 0, w_end = 11, w_length = 12\<rparr>" "[]"]
  by simp

text \<open>
  Claim C2. For every window and every \<open>slotSize > 1\<close>, \<^verbatim>\<open>generateProofs\<close> returns.
  It fails with \<open>ChainRejected\<close> exactly when one of the transactions sent for the slots
  of the loop, in order, reverts; otherwise it returns those slots, with as many starts
  as ends, and they are chained: each slot after the first starts at the end of the slot
  before it plus one. In particular, for a window of length 12 starting at \<open>s\<close> and slot
  size 4, if the three transactions for \<open>[s, s+3]\<close>, \<open>[s+4, s+7]\<close>, \<open>[s+8, s+11]\<close>
  go through, the result is exactly these three slots, and it is \<open>ChainRejected\<close> only
  if one of the three reverts.
\<close>

theorem generateProofs_chained:
  "(1 < slotSize \<longrightarrow>
      (\<exists>res. generateProofs methods w slotSize c = Some res \<and>
         (case sendEach (generateProofOfSlotValidation methods)
                 (slotBounds slotSize (w_end w) (w_start w)) c of
            None \<Rightarrow> res = Inl ChainRejected
          | Some c' \<Rightarrow>
              (\<exists>r. res = Inr (r, c') \<and>
                 zip (startSlots r) (endSlots r) = slotBounds slotSize (w_end w) (w_start w) \<and>
                 length (startSlots r) = length (endSlots r) \<and>
                 (\<forall>j. Suc j < length (startSlots r) \<longrightarrow>
                      startSlots r ! Suc j = endSlots r ! j + 1)))))
   \<and> generateProofs methods \<lparr>w_start = s, w_end = s + 11, w_length = 12\<rparr> 4 c
       = Some (case sendEach (generateProofOfSlotValidation methods)
                      [(s, s + 3), (s + 4, s + 7), (s + 8, s + 11)] c of
                 None \<Rightarrow> Inl ChainRejected
               | Some c' \<Rightarrow> Inr (\<lparr>startSlots = [s, s + 4, s + 8],
                                   endSlots = [s + 3, s + 7, s + 11]\<rparr>, c'))"
proof (intro conjI impI)
  assume size: "1 < slotSize"
  let ?slots = "slotBounds slotSize (w_end w) (w_start w)"
  have nth: "map fst ?slots ! Suc j = map snd ?slots ! j + 1" if "Suc j < length ?slots" for j
    using that slotBounds_chained [of j slotSize "w_end w" "w_start w"] by simp
  have pairs: "zip (map fst ?slots) (map snd ?slots) = ?slots"
    by (simp add: zip_map_fst_snd)
  show "\<exists>res. generateProofs methods w slotSize c = Some res \<and>
         (case sendEach (generateProofOfSlotValidation methods) ?slots c of
            None \<Rightarrow> res = Inl ChainRejected
          | Some c' \<Rightarrow>
              (\<exists>r. res = Inr (r, c') \<and>
                 zip (startSlots r) (endSlots r) = ?slots \<and>
                 length (startSlots r) = length (endSlots r) \<and>
                 (\<forall>j. Suc j < length (startSlots r) \<longrightarrow>
                      startSlots r ! Suc j = endSlots r ! j + 1)))"
  proof (cases "sendEach (generateProofOfSlotValidation methods) ?slots c")
    case None
    then show ?thesis by (simp add: generateProofs_refines [OF size])
  next
    case (Some c')
    then show ?thesis using nth pairs by (simp add: generateProofs_refines [OF size])
  qed
next
  have "(1::int) < 4" by simp
  then show "generateProofs methods \<lparr>w_start = s, w_end = s + 11, w_length = 12\<rparr> 4 c
       = Some (case sendEach (generateProofOfSlotValidation methods)
                      [(s, s + 3), (s + 4, s + 7), (s + 8, s + 11)] c of
                 None \<Rightarrow> Inl ChainRejected
               | Some c' \<Rightarrow> Inr (\<lparr>startSlots = [s, s + 4, s + 8],
                                   endSlots = [s + 3, s + 7, s + 11]\<rparr>, c'))"
    by (simp add: generateProofs_refines slotBounds_12_4 split: option.splits)
qed

theorem generateProofs_chained_witness:
  "(1::int) < 4
   \<and> generateProofs recordingMethods \<lparr>w_start = 20, w_end = 20 + 11, w_length = 12\<rparr> 4 []
       = Some (Inr (\<lparr>startSlots = [20, 24, 28], endSlots = [23, 27, 31]\<rparr>,
                    [(20, 23), (24, 27), (28, 31)]))
   \<and> [20, 24, 28 :: int] ! Suc 0 = [23, 27, 31] ! 0 + 1
   \<and> [20, 24, 28 :: int] ! Suc 1 = [23, 27, 31] ! 1 + 1"
proof -
  note inst = generateProofs_chained
            [of 4 recordingMethods "\<lparr>w_start = 20, w_end = 20 + 11, w_length = 12\<rparr>" "[]" 20]
  have sends: "sendEach (generateProofOfSlotValidation recordingMethods)
                 [(20, 23), (24, 27), (28, 31)] [] = Some [(20, 23), (24, 27), (28, 31)]"
    by (simp add: recordingMethods_def)
  have run: "generateProofs recordingMethods \<lparr>w_start = 20, w_end = 20 + 11, w_length = 12\<rparr> 4 []
       = Some (Inr (\<lparr>startSlots = [20, 24, 28], endSlots = [23, 27, 31]\<rparr>,
                    [(20, 23), (24, 27), (28, 31)]))"
    using inst sends by simp
  have slots: "slotBounds 4 31 20 = [(20, 23), (24, 27), (28, 31)]"
    by (simp add: slotBounds_Cons slotBounds_Nil)
  have "\<forall>j. Suc j < length [20, 24, 28 :: int] \<longrightarrow>
            [20, 24, 28 :: int] ! Suc j = [23, 27, 31] ! j + 1"
    using inst unfolding run by (auto simp: slots recordingMethods_def)
  then have "[20, 24, 28 :: int] ! Suc 0 = [23, 27, 31] ! 0 + 1"
        and "[20, 24, 28 :: int] ! Suc 1 = [23, 27, 31] ! 1 + 1"
    by simp_all
  with run show ?thesis by simp
qed

text \<open>
  Claim C10. For a window of length 1 (\<open>start = end\<close>) and any \<open>slotSize > 1\<close>,
  \<^verbatim>\<open>generateProofs\<close> returns empty \<open>startSlots\<close> and \<open>endSlots\<close> and leaves the
  contract storage as it was, whatever the contract would do with a transaction: no
  \<^verbatim>\<open>generateProofOfSlotValidation\<close> is sent. The slash transaction that
  \<^verbatim>\<open>slashGeneratingProofs\<close> then assembles references zero slots.
\<close>

theorem generateProofs_single_block_window:
  assumes "w_start w = w_end w" and "1 < slotSize"
  shows "generateProofs methods w slotSize c
           = Some (Inr (\<lparr>startSlots = [], endSlots = []\<rparr>, c))
         \<and> (\<exists>tx. slashGeneratingProofs kit methods validator w slotSize
                      startSignerIndex endSignerIndex c = Some (Inr (tx, c))
                   \<and> tx_startSlots tx = [] \<and> tx_endSlots tx = [])"
proof -
  have "\<not> w_start w < w_end w" using assms(1) by simp
  then have run: "generateProofs methods w slotSize c
      = Some (Inr (\<lparr>startSlots = [], endSlots = []\<rparr>, c))"
    using assms(2) by (simp add: generateProofs_def generateProofs_loop.simps)
  then show ?thesis
    by (simp add: slashGeneratingProofs_def slash_def Let_def)
qed

theorem generateProofs_single_block_window_witness:
  "w_start \<lparr>w_start = 7, w_end = 7, w_length = 1\<rparr> = w_end \<lparr>w_start = 7, w_end = 7, w_length = 1\<rparr>
   \<and> (1::int) < 4
   \<and> generateProofs revertingMethods \<lparr>w_start = 7, w_end = 7, w_length = 1\<rparr> 4 ()
       = Some (Inr (\<lparr>startSlots = [], endSlots = []\<rparr>, ()))"
proof -
  have same: "w_start \<lparr>w_start = 7, w_end = 7, w_length = 1\<rparr>
                = w_end \<lparr>w_start = 7, w_end = 7, w_length = 1\<rparr>"
    by simp
  have size: "(1::int) < 4" by simp
  from generateProofs_single_block_window [OF same size, of revertingMethods "()"] same size
  show ?thesis by blast
qed

text \<open>
  Claim C8 says that \<^verbatim>\<open>generateProofs\<close> queries \<^verbatim>\<open>slotAlreadyCalculated\<close> before
  each \<^verbatim>\<open>generateProofOfSlotValidation\<close> and skips the slots already calculated.
  The loop sends the transaction for every slot it generates: on a contract that has
  already calculated the slot \<open>[0, 3]\<close>, the transaction for \<open>[0, 3]\<close> is sent again.
\<close>

theorem generateProofs_resends_calculated_slot:
  "slotAlreadyCalculated recordingMethods 0 3 [(0, 3)]
   \<and> generateProofs recordingMethods \<lparr>w_start = 0, w_end = 3, w_length = 4\<rparr> 4 [(0, 3)]
       = Some (Inr (\<lparr>startSlots = [0], endSlots = [3]\<rparr>, [(0, 3), (0, 3)]))"
  by (simp add: generateProofs_def generateProofs_loop.simps recordingMethods_def)

text \<open>
  Claim C8, amended. For each slot it generates, \<^verbatim>\<open>generateProofs\<close> sends
  \<^verbatim>\<open>generateProofOfSlotValidation\<close> once, in the order of the slots, whether or not the
  slot was already calculated: the storage it returns is the one reached by sending one
  transaction per returned slot, and its result does not depend on what
  \<^verbatim>\<open>slotAlreadyCalculated\<close> answers.
\<close>

theorem generateProofs_sends_every_slot:
  "(\<forall>r c'. generateProofs methods w slotSize c = Some (Inr (r, c')) \<longrightarrow>
       sendEach (generateProofOfSlotValidation methods) (zip (startSlots r) (endSlots r)) c
         = Some c')
   \<and> generateProofs (methods\<lparr>slotAlreadyCalculated := q\<rparr>) w slotSize c
       = generateProofs methods w slotSize c"
proof (cases "1 < slotSize")
  case False
  then show ?thesis by (simp add: generateProofs_def)
next
  case True
  let ?slots = "slotBounds slotSize (w_end w) (w_start w)"
  have pairs: "zip (map fst ?slots) (map snd ?slots) = ?slots"
    by (simp add: zip_map_fst_snd)
  have sent: "\<forall>r c'. generateProofs methods w slotSize c = Some (Inr (r, c')) \<longrightarrow>
       sendEach (generateProofOfSlotValidation methods) (zip (startSlots r) (endSlots r)) c
         = Some c'"
    using pairs by (auto simp: generateProofs_refines [OF True] split: option.splits)
  have same: "generateProofs (methods\<lparr>slotAlreadyCalculated := q\<rparr>) w slotSize c
       = generateProofs methods w slotSize c"
    by (simp add: generateProofs_refines [OF True])
  from sent same show ?thesis by blast
qed

theorem generateProofs_sends_every_slot_witness:
  "generateProofs recordingMethods \<lparr>w_start = 0, w_end = 3, w_length = 4\<rparr> 4 [(0, 3)]
       = Some (Inr (\<lparr>startSlots = [0], endSlots = [3]\<rparr>, [(0, 3), (0, 3)]))
   \<and> sendEach (generateProofOfSlotValidation recordingMethods) (zip [0] [3]) [(0, 3)]
       = Some [(0, 3), (0, 3)]"
proof -
  have run: "generateProofs recordingMethods \<lparr>w_start = 0, w_end = 3, w_length = 4\<rparr> 4 [(0, 3)]
       = Some (Inr (\<lparr>startSlots = [0], endSlots = [3]\<rparr>, [(0, 3), (0, 3)]))"
    by (simp add: generateProofs_def generateProofs_loop.simps recordingMethods_def)
  have "sendEach (generateProofOfSlotValidation recordingMethods)
          (zip (startSlots \<lparr>startSlots = [0], endSlots = [3]\<rparr>)
               (endSlots \<lparr>startSlots = [0], endSlots = [3]\<rparr>)) [(0, 3)]
        = Some [(0, 3), (0, 3)]"
    using generateProofs_sends_every_slot
            [of recordingMethods "\<lparr>w_start = 0, w_end = 3, w_length = 4\<rparr>" 4 "[(0, 3)]"] run
    by blast
  with run show ?thesis by simp
qed

text \<open>
  Claim C1 says that the slots cover the window: the first slot starts at
  \<open>window.start\<close> and the last slot ends at \<open>window.end\<close>. The loop runs while
  \<open>i < window.end\<close>, so a block at \<open>window.end\<close> that would open a slot of its own is
  left out: for the window \<open>[0, 12]\<close> and slot size 4 the last slot ends at 11.
\<close>

theorem generateProofs_misses_last_block:
  "generateProofs recordingMethods \<lparr>w_start = 0, w_end = 12, w_length = 13\<rparr> 4 []
     = Some (Inr (\<lparr>startSlots = [0, 4, 8], endSlots = [3, 7, 11]\<rparr>,
                  [(0, 3), (4, 7), (8, 11)]))
   \<and> last [3, 7, 11] \<noteq> w_end \<lparr>w_start = 0, w_end = 12, w_length = 13\<rparr>"
  by (simp add: generateProofs_def generateProofs_loop.simps recordingMethods_def)

subsection \<open>Signer indices\<close>

lemma findAddressIndex_absent: "(findAddressIndex a xs < 0) = (a \<notin> set xs)"
proof (induction xs)
  case Nil
  show ?case by simp
next
  case (Cons x xs)
  then show ?case by (auto simp: Let_def)
qed

lemma findAddressIndex_present:
  "a \<in> set xs \<Longrightarrow> 0 \<le> findAddressIndex a xs \<and> findAddressIndex a xs < int (length xs)
     \<and> xs ! nat (findAddressIndex a xs) = a"
proof (induction xs)
  case Nil
  then show ?case by simp
next
  case (Cons x xs)
  show ?case
  proof (cases "x = a")
    case True
    then show ?thesis by simp
  next
    case False
    with Cons.prems have "a \<in> set xs" by simp
    with Cons.IH have ih: "0 \<le> findAddressIndex a xs" "findAddressIndex a xs < int (length xs)"
      "xs ! nat (findAddressIndex a xs) = a" by simp_all
    with False show ?thesis by (simp add: Let_def nat_add_distrib)
  qed
qed

text \<open>
  \<^verbatim>\<open>getValidatorSignerIndex\<close> stops with \<open>SignerNotElected\<close> exactly when the signer
  is absent from the set elected at the block.
\<close>

lemma getValidatorSignerIndex_not_elected:
  "(getValidatorSignerIndex kit validatorOrSignerAddress blockNumber = Inl SignerNotElected)
     = ((if isAccount kit validatorOrSignerAddress
         then validator_signer (getValidator kit validatorOrSignerAddress blockNumber)
         else validatorOrSignerAddress) \<notin> set (getValidatorSigners kit blockNumber))"
  by (simp add: getValidatorSignerIndex_def Let_def findAddressIndex_absent)

text \<open>
  Claim C9 says that every path resolving a signer index fails with \<open>SignerNotElected\<close>
  when the signer is absent from the elected set at the queried block.
  \<^verbatim>\<open>getValidatorSignerIndex\<close> does; \<^verbatim>\<open>slashStartSignerIndex\<close> and
  \<^verbatim>\<open>slashEndSignerIndex\<close> pass the result of \<^verbatim>\<open>findAddressIndex\<close> on without
  testing it. In the example chain \<open>signer1\<close> is elected at block 95 and not at block 106,
  \<open>signer2\<close> at block 106 and not at block 95, and the window \<open>[95, 106]\<close> crosses the epoch
  boundary: both functions assemble a slash transaction with the index \<open>-1\<close>.
\<close>

theorem slashSignerIndex_proceeds_with_absent_signer:
  "''signer1'' \<notin> set (getValidatorSigners exampleKit 106)
   \<and> getValidatorSignerIndex exampleKit ''signer1'' 106 = Inl SignerNotElected
   \<and> slashStartSignerIndex exampleKit 95 0 [] []
       = Inr \<lparr>tx_windowStart = 95, tx_startSlots = [], tx_endSlots = [],
              tx_startSignerIndex = 0, tx_endSignerIndex = - 1, tx_historyIndex = 0,
              tx_validatorParameters = \<lparr>lessers = [], greaters = [], indices = []\<rparr>,
              tx_groupParameters = \<lparr>lessers = [], greaters = [], indices = []\<rparr>\<rparr>
   \<and> ''signer2'' \<notin> set (getValidatorSigners exampleKit 95)
   \<and> slashEndSignerIndex exampleKit 106 0 [] []
       = Inr \<lparr>tx_windowStart = 95, tx_startSlots = [], tx_endSlots = [],
              tx_startSignerIndex = - 1, tx_endSignerIndex = 0, tx_historyIndex = 0,
              tx_validatorParameters = \<lparr>lessers = [], greaters = [], indices = []\<rparr>,
              tx_groupParameters = \<lparr>lessers = [], greaters = [], indices = []\<rparr>\<rparr>"
  by (simp add: exampleKit_def exampleSigners_def getValidatorSignerIndex_def
      slashStartSignerIndex_def slashEndSignerIndex_def getSlashableDowntimeWindow_def
      getDowntimeWindow_def slash_def Let_def)

end
